theory Spec2Isabelle
  imports Complex_Main "HOL-Library.Stream"
begin

section \<open>Dodge: the simulation core of \<^verbatim>\<open>src/main.cpp\<close>\<close>

text \<open>
  The program is a single C++ file: a weather bridge (\<^verbatim>\<open>gWeather\<close>, \<^verbatim>\<open>SetWeather\<close>),
  \<^verbatim>\<open>ResetGame\<close>, and the frame loop of \<^verbatim>\<open>main\<close>. The embedding passes the state of
  \<^verbatim>\<open>main\<close> (its locals, the global \<^verbatim>\<open>gWeather\<close> and the random number generator)
  explicitly as one record. The drawing half of the loop body writes nothing back and is
  left out.

  Arithmetic: a C \<^verbatim>\<open>float\<close> is read as a real number, so rounding is outside the
  model. The reals have no infinity and no NaN: a float division by zero, the one place
  where the program could produce them, is an error value of the model. An \<^verbatim>\<open>int\<close> is
  read as an integer; the only \<^verbatim>\<open>int\<close>s that can leave the 32-bit range are the results of
  the casts from \<^verbatim>\<open>float\<close>, which are cut to 32 bits below.
\<close>

subsection \<open>Data types\<close>

text \<open>
  \<^verbatim>\<open>enum class WeatherKind { SUNNY = 0, CLOUDY = 1, RAINY = 2 }\<close> has underlying type
  \<^verbatim>\<open>int\<close>, and \<^verbatim>\<open>SetWeather\<close> stores \<^verbatim>\<open>(WeatherKind)kind\<close> for any \<^verbatim>\<open>int\<close>: the
  variable can hold every integer, so it is modelled as an integer with three named values.
\<close>

type_synonym WeatherKind = int

abbreviation (input) SUNNY :: WeatherKind where "SUNNY \<equiv> 0"
abbreviation (input) CLOUDY :: WeatherKind where "CLOUDY \<equiv> 1"
abbreviation (input) RAINY :: WeatherKind where "RAINY \<equiv> 2"

record Rectangle =
  x :: real
  y :: real
  width :: real
  height :: real

record Player =
  rect :: Rectangle
  speed :: real

text \<open>
  The rectangle of an \<^verbatim>\<open>Enemy\<close> is the field \<^verbatim>\<open>rect\<close> in the source too; it is called
  \<open>erect\<close> here, because the fields of all records share one name space.
\<close>

record Enemy =
  erect :: Rectangle
  speedY :: real
  kind :: int

datatype GameState = MENU | PLAYING | GAME_OVER

abbreviation (input) SCREEN_W :: int where "SCREEN_W \<equiv> 800"
abbreviation (input) SCREEN_H :: int where "SCREEN_H \<equiv> 450"
abbreviation (input) ENEMY_COUNT :: int where "ENEMY_COUNT \<equiv> 10"

text \<open>The keys the loop reads, and what one frame sees of the outside world.\<close>

datatype KeyboardKey =
  KEY_RIGHT | KEY_D | KEY_LEFT | KEY_A | KEY_DOWN | KEY_S | KEY_UP | KEY_W
  | KEY_SPACE | KEY_ENTER | KEY_R | KEY_ESCAPE | KEY_F1 | KEY_F2 | KEY_F3

record Input =
  keysDown :: "KeyboardKey list"
  keysPressed :: "KeyboardKey list"
  frameTime :: real

definition IsKeyDown :: "Input \<Rightarrow> KeyboardKey \<Rightarrow> bool" where
  "IsKeyDown inp k = (k \<in> set (keysDown inp))"

definition IsKeyPressed :: "Input \<Rightarrow> KeyboardKey \<Rightarrow> bool" where
  "IsKeyPressed inp k = (k \<in> set (keysPressed inp))"

definition GetFrameTime :: "Input \<Rightarrow> real" where
  "GetFrameTime inp = frameTime inp"

text \<open>
  The locals of \<^verbatim>\<open>main\<close> that live across frames, the global \<^verbatim>\<open>gWeather\<close>, and the
  stream of raw values the random number generator will hand out.
\<close>

record Game =
  state :: GameState
  player :: Player
  enemies :: "Enemy list"
  score :: real
  bestScore :: int
  gWeather :: WeatherKind
  rng :: "nat stream"

text \<open>
  What can go wrong: \<^verbatim>\<open>std::length_error\<close> from the vector, and a float division by zero,
  whose result (an infinity or NaN) is not a real number.
\<close>

datatype error = LengthError | DivisionByZero

subsection \<open>Library functions\<close>

text \<open>
  Modelled from the spec: the random number provider is an external collaborator
  (raylib's \<^verbatim>\<open>GetRandomValue\<close>) that "supplies bounded random integers". The model draws one
  raw value from the stream and reduces it into \<open>[min, max]\<close>, both ends included, after
  putting the bounds in order as the library does.
\<close>

definition GetRandomValue :: "int \<Rightarrow> int \<Rightarrow> nat stream \<Rightarrow> int \<times> nat stream" where
  "GetRandomValue mn mx g =
     (let lo = min mn mx; hi = max mn mx
      in (lo + int (shd g) mod (hi - lo + 1), stl g))"

text \<open>
  Modelled from the spec: the overlap test is the external geometry primitive (raylib's
  \<^verbatim>\<open>CheckCollisionRecs\<close>), an "axis-aligned overlap test, inclusive or exclusive edges",
  with the convention left to that primitive. The library compares with strict
  inequalities, so rectangles that only touch do not collide, and that is what is written
  here. The theorems below speak of the test's result, whatever the convention at the
  edges.
\<close>

definition CheckCollisionRecs :: "Rectangle \<Rightarrow> Rectangle \<Rightarrow> bool" where
  "CheckCollisionRecs rec1 rec2 =
     ((x rec1 < x rec2 + width rec2 \<and> x rec1 + width rec1 > x rec2) \<and>
      (y rec1 < y rec2 + height rec2 \<and> y rec1 + height rec1 > y rec2))"

text \<open>
  The cast \<^verbatim>\<open>(int)f\<close> of a float truncates towards zero, and its result is a 32-bit
  \<^verbatim>\<open>int\<close>. Where the truncated value does not fit, from \<open>2^31\<close> on and below \<open>-2^31\<close>, C++
  leaves the conversion undefined; the model returns what the conversion instruction of
  x86 delivers there, the smallest \<^verbatim>\<open>int\<close>. The theorems that read a value through the
  cast take the value in range, so that none of them rests on this choice.
\<close>

definition int_of_float :: "real \<Rightarrow> int" where
  "int_of_float r =
     (if - 2147483649 < r \<and> r < 2147483648
      then (if 0 \<le> r then \<lfloor>r\<rfloor> else \<lceil>r\<rceil>)
      else - 2147483648)"

text \<open>
  The float division \<^verbatim>\<open>a / b\<close>. For \<open>b = 0\<close> the float result is an infinity or NaN, and the
  model stops with an error instead of going on with the \<open>0\<close> that HOL's division gives.
\<close>

definition float_div :: "real \<Rightarrow> real \<Rightarrow> error + real" where
  "float_div a b = (if b = 0 then Inl DivisionByZero else Inr (a / b))"

subsection \<open>The weather bridge\<close>

definition SetWeather :: "int \<Rightarrow> Game \<Rightarrow> Game" where
  "SetWeather k g = g\<lparr>gWeather := k\<rparr>"

subsection \<open>ResetGame\<close>

text \<open>
  One iteration of the spawn loop. The draws happen in the order of the source: x, y, then
  the size and the speed of the branch taken. \<open>k\<close> is \<^verbatim>\<open>(int)gWeather\<close>.
\<close>

definition spawn_enemy :: "int \<Rightarrow> nat stream \<Rightarrow> Enemy \<times> nat stream" where
  "spawn_enemy k g0 =
     (let (xi, g1) = GetRandomValue 0 (SCREEN_W - 40) g0;
          (yi, g2) = GetRandomValue (- SCREEN_H) (- 20) g1
      in if k = 2 then
           (let (w, g3) = GetRandomValue 3 6 g2;
                (h, g4) = GetRandomValue 14 24 g3;
                (s, g5) = GetRandomValue 40 180 g4
            in (\<lparr>erect = \<lparr>x = of_int xi, y = of_int yi, width = of_int w, height = of_int h\<rparr>,
                 speedY = 180 + of_int s, kind = k\<rparr>, g5))
         else if k = 1 then
           (let (w, g3) = GetRandomValue 40 72 g2;
                (h, g4) = GetRandomValue 24 40 g3;
                (s, g5) = GetRandomValue 20 80 g4
            in (\<lparr>erect = \<lparr>x = of_int xi, y = of_int yi, width = of_int w, height = of_int h\<rparr>,
                 speedY = 100 + of_int s, kind = k\<rparr>, g5))
         else
           (let (w, g3) = GetRandomValue 18 30 g2;
                (s, g4) = GetRandomValue 20 120 g3
            in (\<lparr>erect = \<lparr>x = of_int xi, y = of_int yi, width = of_int w, height = of_int w\<rparr>,
                 speedY = 140 + of_int s, kind = k\<rparr>, g4)))"

text \<open>The loop \<^verbatim>\<open>for (int i = 0; i < enemyCount; ++i)\<close>, by the number of iterations left.\<close>

fun spawn_loop :: "nat \<Rightarrow> int \<Rightarrow> nat stream \<Rightarrow> Enemy list \<times> nat stream" where
  "spawn_loop 0 k g = ([], g)"
| "spawn_loop (Suc n) k g =
     (let (e, g1) = spawn_enemy k g;
          (es, g2) = spawn_loop n k g1
      in (e # es, g2))"

text \<open>
  \<^verbatim>\<open>enemies.reserve(enemyCount)\<close> converts a negative count to a huge unsigned size and
  throws \<^verbatim>\<open>std::length_error\<close>; that is the only way \<^verbatim>\<open>ResetGame\<close> fails. (Running out
  of memory is not modelled.)
\<close>

definition ResetGame :: "Game \<Rightarrow> int \<Rightarrow> error + Game" where
  "ResetGame g enemyCount =
     (if enemyCount < 0 then Inl LengthError
      else
        (let p = (player g)\<lparr>rect :=
                   \<lparr>x = of_int SCREEN_W / 2 - 18, y = of_int SCREEN_H - 70,
                    width = 36, height = 36\<rparr>\<rparr>;
             (es, g1) = spawn_loop (nat enemyCount) (gWeather g) (rng g)
         in Inr (g\<lparr>player := p, enemies := es, score := 0, rng := g1\<rparr>)))"

subsection \<open>The Playing branch of the frame loop\<close>

text \<open>1) Player input and movement.\<close>

definition move_dir :: "Input \<Rightarrow> real \<times> real" where
  "move_dir inp =
     (let mx0 = 0;
          mx1 = (if IsKeyDown inp KEY_RIGHT \<or> IsKeyDown inp KEY_D then mx0 + 1 else mx0);
          mx2 = (if IsKeyDown inp KEY_LEFT \<or> IsKeyDown inp KEY_A then mx1 - 1 else mx1);
          my0 = 0;
          my1 = (if IsKeyDown inp KEY_DOWN \<or> IsKeyDown inp KEY_S then my0 + 1 else my0);
          my2 = (if IsKeyDown inp KEY_UP \<or> IsKeyDown inp KEY_W then my1 - 1 else my1)
      in (mx2, my2))"

text \<open>
  The guarded normalisation: \<^verbatim>\<open>move.x /= len; move.y /= len;\<close> runs only for a non-zero
  vector.
\<close>

definition normalise :: "real \<times> real \<Rightarrow> error + real \<times> real" where
  "normalise m =
     (if fst m \<noteq> 0 \<or> snd m \<noteq> 0 then
        (let len = sqrt (fst m * fst m + snd m * snd m)
         in case float_div (fst m) len of
              Inl err \<Rightarrow> Inl err
            | Inr mx \<Rightarrow>
                (case float_div (snd m) len of
                   Inl err \<Rightarrow> Inl err
                 | Inr my \<Rightarrow> Inr (mx, my)))
      else Inr m)"

definition move_player :: "Input \<Rightarrow> Player \<Rightarrow> error + Player" where
  "move_player inp p =
     (case normalise (move_dir inp) of
        Inl err \<Rightarrow> Inl err
      | Inr m \<Rightarrow>
          (let dt = GetFrameTime inp;
               r = rect p
           in Inr (p\<lparr>rect := r\<lparr>x := x r + fst m * speed p * dt,
                                 y := y r + snd m * speed p * dt\<rparr>\<rparr>)))"

definition clamp_player :: "Player \<Rightarrow> Player" where
  "clamp_player p =
     (let r0 = rect p;
          r1 = (if x r0 < 0 then r0\<lparr>x := 0\<rparr> else r0);
          r2 = (if y r1 < 0 then r1\<lparr>y := 0\<rparr> else r1);
          r3 = (if x r2 + width r2 > of_int SCREEN_W
                then r2\<lparr>x := of_int SCREEN_W - width r2\<rparr> else r2);
          r4 = (if y r3 + height r3 > of_int SCREEN_H
                then r3\<lparr>y := of_int SCREEN_H - height r3\<rparr> else r3)
      in p\<lparr>rect := r4\<rparr>)"

text \<open>The debug keys F1, F2, F3: three independent tests, the last one pressed wins.\<close>

definition debug_weather :: "Input \<Rightarrow> WeatherKind \<Rightarrow> WeatherKind" where
  "debug_weather inp w0 =
     (let w1 = (if IsKeyPressed inp KEY_F1 then SUNNY else w0);
          w2 = (if IsKeyPressed inp KEY_F2 then CLOUDY else w1);
          w3 = (if IsKeyPressed inp KEY_F3 then RAINY else w2)
      in w3)"

text \<open>
  2) Enemies. The body of the recycle test: a new y, a new x, and a new speed from the
  range of the enemy's own kind; the kind is not written.
\<close>

definition recycle :: "Enemy \<Rightarrow> nat stream \<Rightarrow> Enemy \<times> nat stream" where
  "recycle e g0 =
     (let (yi, g1) = GetRandomValue (- 200) (- 20) g0;
          (xi, g2) = GetRandomValue 0 (SCREEN_W - int_of_float (width (erect e))) g1;
          (s, g3) = (if kind e = 2 then
                       (let (v, g') = GetRandomValue 40 180 g2 in (180 + of_int v, g'))
                     else if kind e = 1 then
                       (let (v, g') = GetRandomValue 20 80 g2 in (100 + of_int v, g'))
                     else
                       (let (v, g') = GetRandomValue 20 120 g2 in (140 + of_int v, g')))
      in (e\<lparr>erect := (erect e)\<lparr>y := of_int yi, x := of_int xi\<rparr>, speedY := s\<rparr>, g3))"

definition update_enemy :: "real \<Rightarrow> Enemy \<Rightarrow> nat stream \<Rightarrow> Enemy \<times> nat stream" where
  "update_enemy dt e g =
     (let e1 = e\<lparr>erect := (erect e)\<lparr>y := y (erect e) + speedY e * dt\<rparr>\<rparr>
      in if y (erect e1) > of_int (SCREEN_H + 10) then recycle e1 g else (e1, g))"

text \<open>
  The loop over the enemies, in order. It carries \<^verbatim>\<open>state\<close>, \<^verbatim>\<open>bestScore\<close> and the
  generator; the player's rectangle and the score are only read.
\<close>

fun enemy_loop ::
  "Rectangle \<Rightarrow> real \<Rightarrow> real \<Rightarrow> Enemy list \<Rightarrow> GameState \<Rightarrow> int \<Rightarrow> nat stream
     \<Rightarrow> Enemy list \<times> GameState \<times> int \<times> nat stream" where
  "enemy_loop pr dt sc [] st best g = ([], st, best, g)"
| "enemy_loop pr dt sc (e # es) st best g =
     (let (e1, g1) = update_enemy dt e g;
          hit = CheckCollisionRecs pr (erect e1);
          st1 = (if hit then GAME_OVER else st);
          best1 = (if hit \<and> int_of_float sc > best then int_of_float sc else best);
          (es1, st2, best2, g2) = enemy_loop pr dt sc es st1 best1 g1
      in (e1 # es1, st2, best2, g2))"

text \<open>The whole branch, with 3) the score at the end.\<close>

definition playing :: "Input \<Rightarrow> Game \<Rightarrow> error + Game" where
  "playing inp g =
     (case move_player inp (player g) of
        Inl err \<Rightarrow> Inl err
      | Inr pm \<Rightarrow>
          (let p = clamp_player pm;
               dt = GetFrameTime inp;
               w = debug_weather inp (gWeather g);
               (es, st, best, g1) =
                  enemy_loop (rect p) dt (score g) (enemies g) (state g) (bestScore g) (rng g)
           in Inr (g\<lparr>state := st, player := p, enemies := es, score := score g + 60 * dt,
                    bestScore := best, gWeather := w, rng := g1\<rparr>)))"

subsection \<open>The update half of one frame\<close>

definition game_over :: "Input \<Rightarrow> Game \<Rightarrow> error + Game" where
  "game_over inp g =
     (case (if IsKeyPressed inp KEY_R
            then (case ResetGame g ENEMY_COUNT of
                    Inl err \<Rightarrow> Inl err
                  | Inr g1 \<Rightarrow> Inr (g1\<lparr>state := PLAYING\<rparr>))
            else Inr g) of
        Inl err \<Rightarrow> Inl err
      | Inr g2 \<Rightarrow> Inr (if IsKeyPressed inp KEY_ESCAPE then g2\<lparr>state := MENU\<rparr> else g2))"

definition frame :: "Input \<Rightarrow> Game \<Rightarrow> error + Game" where
  "frame inp g =
     (case state g of
        MENU \<Rightarrow>
          (if IsKeyPressed inp KEY_SPACE \<or> IsKeyPressed inp KEY_ENTER
           then (case ResetGame g ENEMY_COUNT of
                   Inl err \<Rightarrow> Inl err
                 | Inr g1 \<Rightarrow> Inr (g1\<lparr>state := PLAYING\<rparr>))
           else Inr g)
      | PLAYING \<Rightarrow> playing inp g
      | GAME_OVER \<Rightarrow> game_over inp g)"

subsection \<open>The setup of \<^verbatim>\<open>main\<close>\<close>

text \<open>
  The locals of \<^verbatim>\<open>main\<close> before the first \<^verbatim>\<open>ResetGame\<close>: \<^verbatim>\<open>Player player{}\<close> has a
  zero rectangle and the default speed 260. The weather and the generator are whatever the
  outside world has made them.
\<close>

definition main_locals :: "WeatherKind \<Rightarrow> nat stream \<Rightarrow> Game" where
  "main_locals w g =
     \<lparr>state = MENU,
      player = \<lparr>rect = \<lparr>x = 0, y = 0, width = 0, height = 0\<rparr>, speed = 260\<rparr>,
      enemies = [], score = 0, bestScore = 0, gWeather = w, rng = g\<rparr>"

definition main_init :: "WeatherKind \<Rightarrow> nat stream \<Rightarrow> error + Game" where
  "main_init w g = ResetGame (main_locals w g) ENEMY_COUNT"

subsection \<open>Well-formed obstacles\<close>

text \<open>
  Every width that \<^verbatim>\<open>ResetGame\<close> writes is a whole number of pixels between 3 and 72, and
  nothing else writes a width. The recycle step relies on less: a whole, non-negative
  width that is at most the screen width.
\<close>

definition enemy_fits :: "Enemy \<Rightarrow> bool" where
  "enemy_fits e =
     (of_int (int_of_float (width (erect e))) = width (erect e) \<and>
      0 \<le> width (erect e) \<and> width (erect e) \<le> of_int SCREEN_W)"

subsection \<open>The states the program can be in\<close>

text \<open>
  \<^verbatim>\<open>main\<close> resets once and then runs frames; between frames the outside world may call
  \<^verbatim>\<open>SetWeather\<close> with any integer.
\<close>

inductive reachable :: "Game \<Rightarrow> bool" where
  init: "main_init w r = Inr g \<Longrightarrow> reachable g"
| step: "reachable g \<Longrightarrow> frame inp g = Inr g' \<Longrightarrow> reachable g'"
| weather: "reachable g \<Longrightarrow> reachable (SetWeather k g)"

text \<open>
  What holds of every such state: the best score is not negative, the player has its
  speed 260 and its size 36 by 36 and lies on the screen, and the obstacles are well-formed.
\<close>

definition game_inv :: "Game \<Rightarrow> bool" where
  "game_inv g =
     (0 \<le> bestScore g \<and> speed (player g) = 260 \<and>
      width (rect (player g)) = 36 \<and> height (rect (player g)) = 36 \<and>
      0 \<le> x (rect (player g)) \<and> x (rect (player g)) \<le> of_int SCREEN_W - 36 \<and>
      0 \<le> y (rect (player g)) \<and> y (rect (player g)) \<le> of_int SCREEN_H - 36 \<and>
      list_all enemy_fits (enemies g))"

subsection \<open>Concrete states and inputs\<close>

text \<open>
  A run in progress: the player where \<^verbatim>\<open>ResetGame\<close> puts it and one sun right above it,
  about to hit.
\<close>

definition demo_playing :: Game where
  "demo_playing =
     \<lparr>state = PLAYING,
      player = \<lparr>rect = \<lparr>x = 382, y = 380, width = 36, height = 36\<rparr>, speed = 260\<rparr>,
      enemies = [\<lparr>erect = \<lparr>x = 390, y = 385, width = 20, height = 20\<rparr>,
                  speedY = 180, kind = SUNNY\<rparr>],
      score = 251 / 2, bestScore = 7, gWeather = SUNNY, rng = sconst 0\<rparr>"

definition demo_over :: Game where
  "demo_over = demo_playing\<lparr>state := GAME_OVER, bestScore := 125\<rparr>"

definition demo_input :: Input where
  "demo_input = \<lparr>keysDown = [KEY_RIGHT], keysPressed = [], frameTime = 1 / 60\<rparr>"

definition demo_diagonal :: Input where
  "demo_diagonal = \<lparr>keysDown = [KEY_RIGHT, KEY_DOWN], keysPressed = [], frameTime = 1 / 60\<rparr>"

definition demo_idle :: Input where
  "demo_idle = \<lparr>keysDown = [KEY_LEFT, KEY_D], keysPressed = [], frameTime = 1 / 60\<rparr>"


definition demo_long :: Input where
  "demo_long = \<lparr>keysDown = [KEY_D, KEY_UP, KEY_S], keysPressed = [KEY_F2], frameTime = 10\<rparr>"


definition demo_restart :: Input where
  "demo_restart = \<lparr>keysDown = [], keysPressed = [KEY_R], frameTime = 1 / 60\<rparr>"

definition demo_restart_back :: Input where
  "demo_restart_back = \<lparr>keysDown = [], keysPressed = [KEY_R, KEY_ESCAPE], frameTime = 1 / 60\<rparr>"

text \<open>Three obstacles that have fallen past the bottom of the screen, one of each kind.\<close>

definition fallen_sun :: Enemy where
  "fallen_sun = \<lparr>erect = \<lparr>x = 100, y = 459, width = 30, height = 30\<rparr>,
                  speedY = 200, kind = SUNNY\<rparr>"

definition fallen_cloud :: Enemy where
  "fallen_cloud = \<lparr>erect = \<lparr>x = 760, y = 459, width = 72, height = 40\<rparr>,
                    speedY = 120, kind = CLOUDY\<rparr>"

definition fallen_rain :: Enemy where
  "fallen_rain = \<lparr>erect = \<lparr>x = 5, y = 459, width = 3, height = 14\<rparr>,
                   speedY = 360, kind = RAINY\<rparr>"

text \<open>
  The state of \<^verbatim>\<open>main\<close> before its first \<^verbatim>\<open>ResetGame\<close> under an overcast sky, with a
  generator about to hand out 760, 0 and 32; and the same under a weather value that the
  setter was given from outside the enumeration.
\<close>

definition cloudy_edge :: Game where
  "cloudy_edge = main_locals CLOUDY (760 ## 0 ## 32 ## sconst 0)"

definition stray_weather :: Game where
  "stray_weather = SetWeather 7 (main_locals SUNNY (sconst 0))"

definition rainy_start :: Game where
  "rainy_start = SetWeather RAINY (main_locals SUNNY (sconst 5))"

section \<open>Facts about the library functions\<close>

lemma GetRandomValue_range:
  assumes "GetRandomValue mn mx g = (v, g')" and "mn \<le> mx"
  shows "mn \<le> v \<and> v \<le> mx"
proof -
  have pos: "0 < mx - mn + 1" using assms(2) by simp
  have v: "v = mn + int (shd g) mod (mx - mn + 1)"
    using assms by (simp add: GetRandomValue_def Let_def min_def max_def)
  have "0 \<le> int (shd g) mod (mx - mn + 1)"
    using pos by (rule pos_mod_sign)
  moreover have "int (shd g) mod (mx - mn + 1) < mx - mn + 1"
    using pos by (rule pos_mod_bound)
  ultimately show ?thesis using v by linarith
qed

lemma GetRandomValue_rng: "GetRandomValue mn mx g = (v, g') \<Longrightarrow> g' = stl g"
  by (simp add: GetRandomValue_def Let_def)

lemma GetRandomValue_hits:
  assumes "mn \<le> v" and "v \<le> mx"
  shows "GetRandomValue mn mx (nat (v - mn) ## g) = (v, g)"
  using assms by (simp add: GetRandomValue_def Let_def min_def max_def)

lemma int_of_float_range: "- 2147483648 \<le> int_of_float r \<and> int_of_float r \<le> 2147483647"
proof (cases "- 2147483649 < r \<and> r < 2147483648")
  case True
  then have "\<lfloor>r\<rfloor> \<le> 2147483647" "- 2147483648 \<le> \<lceil>r\<rceil>" "0 \<le> r \<Longrightarrow> 0 \<le> \<lfloor>r\<rfloor>"
    "r < 0 \<Longrightarrow> \<lceil>r\<rceil> \<le> 0"
    by (simp_all add: floor_le_iff le_ceiling_iff ceiling_le_iff)
  with True show ?thesis by (simp add: int_of_float_def)
next
  case False
  then show ?thesis by (auto simp: int_of_float_def)
qed

lemma int_of_float_of_int:
  "- 2147483648 \<le> n \<Longrightarrow> n \<le> 2147483647 \<Longrightarrow> int_of_float (of_int n) = n"
  by (simp add: int_of_float_def)

text \<open>
  Truncation and floor differ only below zero, where the best score never is.
\<close>

lemma int_of_float_max:
  assumes "0 \<le> b" and "- 2147483649 < r" and "r < 2147483648"
  shows "max b (int_of_float r) = max b \<lfloor>r\<rfloor>"
proof (cases "0 \<le> r")
  case True
  with assms show ?thesis by (simp add: int_of_float_def)
next
  case False
  then have "r \<le> 0" by simp
  then have "\<lceil>r\<rceil> \<le> 0" by (simp add: ceiling_le_iff)
  moreover have "\<lfloor>r\<rfloor> \<le> \<lceil>r\<rceil>" by (rule floor_le_ceiling)
  ultimately have "\<lceil>r\<rceil> \<le> b" "\<lfloor>r\<rfloor> \<le> b" using assms(1) by linarith+
  then have "max b \<lceil>r\<rceil> = b" "max b \<lfloor>r\<rfloor> = b" by (simp_all only: max_absorb1)
  moreover have "int_of_float r = \<lceil>r\<rceil>"
    using False assms(2,3) by (simp add: int_of_float_def)
  ultimately show ?thesis by simp
qed

section \<open>Facts about ResetGame\<close>

lemma spawn_enemy_x:
  assumes "spawn_enemy k g = (e, g')"
  shows "\<exists>n::int. 0 \<le> n \<and> n \<le> 760 \<and> x (erect e) = of_int n"
  using assms
  by (auto simp: spawn_enemy_def Let_def split: prod.splits if_splits
      dest!: GetRandomValue_range)

lemma spawn_enemy_y:
  assumes "spawn_enemy k g = (e, g')"
  shows "\<exists>n::int. - 450 \<le> n \<and> n \<le> - 20 \<and> y (erect e) = of_int n"
  using assms
  by (auto simp: spawn_enemy_def Let_def split: prod.splits if_splits
      dest!: GetRandomValue_range)

lemma spawn_enemy_rainy:
  assumes "spawn_enemy 2 g = (e, g')"
  shows "3 \<le> width (erect e) \<and> width (erect e) \<le> 6 \<and>
         14 \<le> height (erect e) \<and> height (erect e) \<le> 24 \<and>
         220 \<le> speedY e \<and> speedY e \<le> 360 \<and> kind e = 2"
  using assms
  by (auto simp: spawn_enemy_def Let_def split: prod.splits
      dest!: GetRandomValue_range)

lemma spawn_enemy_cloudy:
  assumes "spawn_enemy 1 g = (e, g')"
  shows "40 \<le> width (erect e) \<and> width (erect e) \<le> 72 \<and>
         24 \<le> height (erect e) \<and> height (erect e) \<le> 40 \<and>
         120 \<le> speedY e \<and> speedY e \<le> 180 \<and> kind e = 1"
  using assms
  by (auto simp: spawn_enemy_def Let_def split: prod.splits
      dest!: GetRandomValue_range)

text \<open>Every value other than 1 and 2 takes the last branch, and is stored as it is.\<close>

lemma spawn_enemy_else:
  assumes "spawn_enemy k g = (e, g')" and "k \<noteq> 2" and "k \<noteq> 1"
  shows "18 \<le> width (erect e) \<and> width (erect e) \<le> 30 \<and>
         height (erect e) = width (erect e) \<and>
         160 \<le> speedY e \<and> speedY e \<le> 260 \<and> kind e = k"
  using assms
  by (auto simp: spawn_enemy_def Let_def split: prod.splits
      dest!: GetRandomValue_range)

lemma spawn_enemy_fits:
  assumes "spawn_enemy k g = (e, g')"
  shows "enemy_fits e"
  using assms
  by (auto simp: spawn_enemy_def Let_def enemy_fits_def int_of_float_of_int
      split: prod.splits if_splits dest!: GetRandomValue_range)

lemma spawn_enemy_on_screen:
  assumes "spawn_enemy k g = (e, g')" and "k \<noteq> 1"
  shows "x (erect e) + width (erect e) \<le> of_int SCREEN_W"
proof -
  from spawn_enemy_x [OF assms(1)] have "x (erect e) \<le> 760" by auto
  moreover have "width (erect e) \<le> 30"
  proof (cases "k = 2")
    case True
    with spawn_enemy_rainy assms(1) show ?thesis by fastforce
  next
    case False
    with spawn_enemy_else [OF assms(1)] assms(2) show ?thesis by simp
  qed
  ultimately show ?thesis by simp
qed

lemma spawn_loop_elems:
  "spawn_loop n k g = (es, g') \<Longrightarrow>
     length es = n \<and> (\<forall>e\<in>set es. \<exists>g1 g2. spawn_enemy k g1 = (e, g2))"
proof (induction n arbitrary: g es g')
  case 0
  then show ?case by simp
next
  case (Suc n)
  obtain e g1 where e: "spawn_enemy k g = (e, g1)" by (cases "spawn_enemy k g")
  obtain es1 g2 where es1: "spawn_loop n k g1 = (es1, g2)" by (cases "spawn_loop n k g1")
  from Suc.prems e es1 have es: "es = e # es1" by simp
  from Suc.IH [OF es1] e es show ?case by auto
qed

lemma ResetGame_Inr:
  assumes "0 \<le> n"
  shows "\<exists>es g1. spawn_loop (nat n) (gWeather g) (rng g) = (es, g1) \<and>
     ResetGame g n = Inr (g\<lparr>player := (player g)\<lparr>rect :=
                   \<lparr>x = 382, y = 380, width = 36, height = 36\<rparr>\<rparr>,
            enemies := es, score := 0, rng := g1\<rparr>)"
  using assms by (cases "spawn_loop (nat n) (gWeather g) (rng g)") (simp add: ResetGame_def)

lemma ResetGame_negative: "n < 0 \<Longrightarrow> ResetGame g n = Inl LengthError"
  by (simp add: ResetGame_def)

section \<open>Facts about the Playing branch\<close>

subsection \<open>The direction and its normalisation\<close>

lemma move_dir_cases:
  "fst (move_dir inp) \<in> {-1, 0, 1} \<and> snd (move_dir inp) \<in> {-1, 0, 1}"
  by (simp add: move_dir_def Let_def)

lemma move_dir_diagonal:
  assumes "fst (move_dir inp) \<noteq> 0" and "snd (move_dir inp) \<noteq> 0"
  shows "sqrt (fst (move_dir inp) * fst (move_dir inp) + snd (move_dir inp) * snd (move_dir inp))
           = sqrt 2"
proof -
  from move_dir_cases [of inp] assms
  have "fst (move_dir inp) * fst (move_dir inp) = 1" "snd (move_dir inp) * snd (move_dir inp) = 1"
    by auto
  then show ?thesis by simp
qed

lemma float_div_zero: "float_div a 0 = Inl DivisionByZero"
  by (simp add: float_div_def)

lemma length_positive:
  assumes "fst m \<noteq> 0 \<or> snd m \<noteq> (0::real)"
  shows "0 < sqrt (fst m * fst m + snd m * snd m)"
proof -
  have "0 < fst m * fst m + snd m * snd m" using assms
    by (metis add_pos_nonneg add_nonneg_pos zero_le_square zero_less_mult_iff
        linorder_neqE_linordered_idom mult_neg_neg)
  then show ?thesis by simp
qed

text \<open>On the guarded branch the divisor is not zero, and both divisions go through.\<close>

lemma normalise_nonzero:
  assumes "fst m \<noteq> 0 \<or> snd m \<noteq> 0"
  shows "normalise m = Inr (fst m / sqrt (fst m * fst m + snd m * snd m),
                            snd m / sqrt (fst m * fst m + snd m * snd m))"
  using assms length_positive [OF assms]
  by (simp add: normalise_def Let_def float_div_def)

lemma normalise_zero: "normalise (0, 0) = Inr (0, 0)"
  by (simp add: normalise_def)

lemma normalise_total: "\<exists>n. normalise m = Inr n"
proof (cases "fst m \<noteq> 0 \<or> snd m \<noteq> 0")
  case True
  from normalise_nonzero [OF this] show ?thesis by blast
next
  case False
  then show ?thesis by (simp add: normalise_def)
qed

lemma unit_length:
  assumes "fst m \<noteq> 0 \<or> snd m \<noteq> (0::real)"
  shows "(fst m / sqrt (fst m * fst m + snd m * snd m))\<^sup>2
         + (snd m / sqrt (fst m * fst m + snd m * snd m))\<^sup>2 = 1"
proof -
  let ?q = "fst m * fst m + snd m * snd m"
  from length_positive [OF assms] have q: "0 < ?q" by simp
  have sq: "sqrt ?q * sqrt ?q = ?q" using q by simp
  have "(fst m / sqrt ?q)\<^sup>2 + (snd m / sqrt ?q)\<^sup>2 = ?q / (sqrt ?q * sqrt ?q)"
    unfolding power2_eq_square by (simp only: times_divide_times_eq add_divide_distrib)
  also have "\<dots> = 1" unfolding sq using assms by auto
  finally show ?thesis .
qed

lemma displacement_magnitude:
  assumes "a\<^sup>2 + b\<^sup>2 = (1::real)" and "0 \<le> c"
  shows "sqrt ((a * c)\<^sup>2 + (b * c)\<^sup>2) = c"
proof -
  have "(a * c)\<^sup>2 + (b * c)\<^sup>2 = (a\<^sup>2 + b\<^sup>2) * c\<^sup>2"
    by (simp add: power2_eq_square algebra_simps)
  then show ?thesis using assms by simp
qed

subsection \<open>Moving and clamping the player\<close>

lemma move_player_Inr:
  assumes "normalise (move_dir inp) = Inr n"
  shows "move_player inp p =
           Inr (p\<lparr>rect := (rect p)\<lparr>x := x (rect p) + fst n * speed p * frameTime inp,
                                      y := y (rect p) + snd n * speed p * frameTime inp\<rparr>\<rparr>)"
  using assms by (simp add: move_player_def Let_def GetFrameTime_def)

lemma move_player_total:
  "\<exists>pm. move_player inp p = Inr pm \<and> speed pm = speed p \<and>
          width (rect pm) = width (rect p) \<and> height (rect pm) = height (rect p)"
proof -
  from normalise_total obtain n where "normalise (move_dir inp) = Inr n" by blast
  from move_player_Inr [OF this, of p] show ?thesis by simp
qed

lemma clamp_player_size:
  "width (rect (clamp_player p)) = width (rect p) \<and>
   height (rect (clamp_player p)) = height (rect p) \<and>
   speed (clamp_player p) = speed p"
  by (simp add: clamp_player_def Let_def)

lemma clamp_player_bounds:
  assumes "width (rect p) \<le> 800" and "height (rect p) \<le> 450"
  shows "0 \<le> x (rect (clamp_player p)) \<and>
         x (rect (clamp_player p)) \<le> 800 - width (rect p) \<and>
         0 \<le> y (rect (clamp_player p)) \<and>
         y (rect (clamp_player p)) \<le> 450 - height (rect p)"
  using assms by (simp add: clamp_player_def Let_def)


subsection \<open>The enemy loop and the whole branch\<close>

lemma enemy_loop_result:
  "enemy_loop pr dt sc es st best g = (es', st', best', g') \<Longrightarrow>
     st' = (if \<exists>e\<in>set es'. CheckCollisionRecs pr (erect e) then GAME_OVER else st) \<and>
     best' = (if \<exists>e\<in>set es'. CheckCollisionRecs pr (erect e)
              then max best (int_of_float sc) else best)"
proof (induction es arbitrary: st best g es' st' best' g')
  case Nil
  then show ?case by simp
next
  case (Cons e es)
  obtain e1 g1 where u: "update_enemy dt e g = (e1, g1)" by (cases "update_enemy dt e g")
  define hit where "hit = CheckCollisionRecs pr (erect e1)"
  define st1 where "st1 = (if hit then GAME_OVER else st)"
  define best1 where "best1 = (if hit \<and> int_of_float sc > best then int_of_float sc else best)"
  obtain es1 st2 best2 g2 where r: "enemy_loop pr dt sc es st1 best1 g1 = (es1, st2, best2, g2)"
    by (cases "enemy_loop pr dt sc es st1 best1 g1")
  from Cons.prems u r have eq: "es' = e1 # es1" "st' = st2" "best' = best2"
    by (simp_all add: hit_def st1_def best1_def)
  note ih = Cons.IH [OF r]
  have b1: "best1 = (if hit then max best (int_of_float sc) else best)"
    by (simp add: best1_def max_def)
  show ?case
  proof (cases hit)
    case True
    then show ?thesis using ih eq b1 by (auto simp: hit_def st1_def max_def)
  next
    case False
    then show ?thesis using ih eq b1 by (auto simp: hit_def st1_def)
  qed
qed

text \<open>The branch always returns; this is what it returns.\<close>

lemma playing_Inr:
  assumes "move_player inp (player g) = Inr pm"
    and "enemy_loop (rect (clamp_player pm)) (frameTime inp) (score g) (enemies g) (state g)
           (bestScore g) (rng g) = (es, st, best, g1)"
  shows "playing inp g =
           Inr (g\<lparr>state := st, player := clamp_player pm, enemies := es,
                  score := score g + 60 * frameTime inp, bestScore := best,
                  gWeather := debug_weather inp (gWeather g), rng := g1\<rparr>)"
  using assms by (simp add: playing_def Let_def GetFrameTime_def)

lemma playing_total:
  "\<exists>pm es st best g1.
      move_player inp (player g) = Inr pm \<and>
      enemy_loop (rect (clamp_player pm)) (frameTime inp) (score g) (enemies g) (state g)
        (bestScore g) (rng g) = (es, st, best, g1) \<and>
      playing inp g =
        Inr (g\<lparr>state := st, player := clamp_player pm, enemies := es,
               score := score g + 60 * frameTime inp, bestScore := best,
               gWeather := debug_weather inp (gWeather g), rng := g1\<rparr>)"
proof -
  from move_player_total obtain pm where m: "move_player inp (player g) = Inr pm" by blast
  obtain es st best g1 where
    l: "enemy_loop (rect (clamp_player pm)) (frameTime inp) (score g) (enemies g) (state g)
          (bestScore g) (rng g) = (es, st, best, g1)"
    by (cases "enemy_loop (rect (clamp_player pm)) (frameTime inp) (score g) (enemies g)
                 (state g) (bestScore g) (rng g)")
  from playing_Inr [OF m l] m l show ?thesis by blast
qed

lemma playing_player:
  assumes "move_player inp (player g) = Inr pm"
  shows "\<exists>g'. playing inp g = Inr g' \<and> player g' = clamp_player pm \<and>
           score g' = score g + 60 * frameTime inp"
proof -
  from playing_total [of inp g] assms show ?thesis by auto
qed

lemma playing_collision:
  assumes "0 \<le> bestScore g" and "- 2147483649 < score g" and "score g < 2147483648"
  shows "\<exists>g'. playing inp g = Inr g' \<and> score g' = score g + 60 * frameTime inp \<and>
           ((\<exists>e\<in>set (enemies g'). CheckCollisionRecs (rect (player g')) (erect e)) \<longrightarrow>
              state g' = GAME_OVER \<and> bestScore g' = max (bestScore g) \<lfloor>score g\<rfloor>)"
proof -
  from playing_total [of inp g] obtain pm es st best g1 where
    l: "enemy_loop (rect (clamp_player pm)) (frameTime inp) (score g) (enemies g) (state g)
          (bestScore g) (rng g) = (es, st, best, g1)" and
    pl: "playing inp g =
        Inr (g\<lparr>state := st, player := clamp_player pm, enemies := es,
               score := score g + 60 * frameTime inp, bestScore := best,
               gWeather := debug_weather inp (gWeather g), rng := g1\<rparr>)"
    by blast
  have "st = GAME_OVER \<and> best = max (bestScore g) \<lfloor>score g\<rfloor>"
    if hit: "\<exists>e\<in>set es. CheckCollisionRecs (rect (clamp_player pm)) (erect e)"
  proof -
    from enemy_loop_result [OF l] hit have "st = GAME_OVER"
      and "best = max (bestScore g) (int_of_float (score g))" by auto
    then show ?thesis using int_of_float_max [OF assms] by simp
  qed
  then show ?thesis by (simp add: pl)
qed

lemma game_over_no_restart:
  "\<not> IsKeyPressed inp KEY_R \<Longrightarrow>
     game_over inp g = Inr (if IsKeyPressed inp KEY_ESCAPE then g\<lparr>state := MENU\<rparr> else g)"
  by (simp add: game_over_def)

section \<open>Facts about falling and recycling\<close>

lemma recycle_kind: "kind (fst (recycle e g)) = kind e"
  by (simp add: recycle_def Let_def split: prod.splits)

lemma recycle_size:
  "width (erect (fst (recycle e g))) = width (erect e) \<and>
   height (erect (fst (recycle e g))) = height (erect e)"
  by (simp add: recycle_def Let_def split: prod.splits)

lemma recycle_y:
  "\<exists>n::int. - 200 \<le> n \<and> n \<le> - 20 \<and> y (erect (fst (recycle e g))) = of_int n"
  by (auto simp: recycle_def Let_def split: prod.splits dest!: GetRandomValue_range)

lemma recycle_x:
  assumes "enemy_fits e"
  shows "\<exists>n::int. 0 \<le> n \<and> of_int n \<le> 800 - width (erect e) \<and>
           x (erect (fst (recycle e g))) = of_int n"
proof -
  obtain w :: int where w: "width (erect e) = of_int w" "0 \<le> w" "w \<le> 800"
    "int_of_float (width (erect e)) = w"
    using assms unfolding enemy_fits_def
    by (metis of_int_0_le_iff of_int_le_iff of_int_numeral)
  obtain yi g1 where a: "GetRandomValue (- 200) (- 20) g = (yi, g1)"
    by (cases "GetRandomValue (- 200) (- 20) g")
  obtain xi g2 where b: "GetRandomValue 0 (800 - w) g1 = (xi, g2)"
    by (cases "GetRandomValue 0 (800 - w) g1")
  from GetRandomValue_range [OF b] w have r: "0 \<le> xi" "xi \<le> 800 - w" by simp_all
  have "x (erect (fst (recycle e g))) = of_int xi"
    using a b w by (simp add: recycle_def Let_def split: prod.splits)
  moreover have "real_of_int xi \<le> 800 - width (erect e)"
    using r w by (simp add: w(1))
  ultimately show ?thesis using r by blast
qed

lemma recycle_speed:
  "(kind e = 2 \<longrightarrow> 220 \<le> speedY (fst (recycle e g)) \<and> speedY (fst (recycle e g)) \<le> 360) \<and>
   (kind e = 1 \<longrightarrow> 120 \<le> speedY (fst (recycle e g)) \<and> speedY (fst (recycle e g)) \<le> 180) \<and>
   (kind e \<noteq> 2 \<and> kind e \<noteq> 1 \<longrightarrow>
      160 \<le> speedY (fst (recycle e g)) \<and> speedY (fst (recycle e g)) \<le> 260)"
  by (auto simp: recycle_def Let_def split: prod.splits dest!: GetRandomValue_range)

lemma update_enemy_recycled:
  assumes "of_int (SCREEN_H + 10) < y (erect e) + speedY e * dt"
  shows "update_enemy dt e g =
           recycle (e\<lparr>erect := (erect e)\<lparr>y := y (erect e) + speedY e * dt\<rparr>\<rparr>) g"
  using assms by (simp add: update_enemy_def Let_def)

lemma update_enemy_falls:
  assumes "\<not> of_int (SCREEN_H + 10) < y (erect e) + speedY e * dt"
  shows "update_enemy dt e g =
           (e\<lparr>erect := (erect e)\<lparr>y := y (erect e) + speedY e * dt\<rparr>\<rparr>, g)"
  using assms by (simp add: update_enemy_def Let_def)

lemma update_enemy_keeps:
  "kind (fst (update_enemy dt e g)) = kind e \<and>
   width (erect (fst (update_enemy dt e g))) = width (erect e) \<and>
   height (erect (fst (update_enemy dt e g))) = height (erect e)"
  by (cases "of_int (SCREEN_H + 10) < y (erect e) + speedY e * dt")
    (simp_all add: update_enemy_recycled update_enemy_falls recycle_kind recycle_size)

lemma fallen_recycled:
  "of_int (SCREEN_H + 10) < y (erect fallen_sun) + speedY fallen_sun * (1 / 60)"
  "of_int (SCREEN_H + 10) < y (erect fallen_cloud) + speedY fallen_cloud * (1 / 60)"
  "of_int (SCREEN_H + 10) < y (erect fallen_rain) + speedY fallen_rain * (1 / 60)"
  by (simp_all add: fallen_sun_def fallen_cloud_def fallen_rain_def)

lemma fallen_fits: "enemy_fits fallen_sun" "enemy_fits fallen_cloud" "enemy_fits fallen_rain"
  by (simp_all add: enemy_fits_def int_of_float_def fallen_sun_def fallen_cloud_def
      fallen_rain_def)

section \<open>Invariants of the frame loop\<close>

text \<open>
  \<^verbatim>\<open>ResetGame\<close> with the count 10 of \<^verbatim>\<open>main\<close> cannot fail, so neither the setup nor a
  frame raises; and every state the program reaches has a non-negative best score, the
  36 by 36 player with speed 260 on the screen, and obstacles of whole widths that fit
  the screen.
\<close>

lemma frame_total: "\<exists>g'. frame inp g = Inr g'"
proof (cases "state g")
  case MENU
  from ResetGame_Inr [of ENEMY_COUNT g] show ?thesis
    using MENU by (auto simp: frame_def)
next
  case PLAYING
  with playing_total [of inp g] show ?thesis by (auto simp: frame_def)
next
  case GAME_OVER
  from ResetGame_Inr [of ENEMY_COUNT g] show ?thesis
    using GAME_OVER by (auto simp: frame_def game_over_def)
qed

lemma main_init_total: "\<exists>g. main_init w r = Inr g"
  using ResetGame_Inr [of ENEMY_COUNT "main_locals w r"] by (auto simp: main_init_def)

lemma update_enemy_fits: "enemy_fits e \<Longrightarrow> enemy_fits (fst (update_enemy dt e g))"
  using update_enemy_keeps [of dt e g] by (simp add: enemy_fits_def)

lemma enemy_loop_fits:
  "enemy_loop pr dt sc es st best g = (es', st', best', g') \<Longrightarrow>
     list_all enemy_fits es \<Longrightarrow> list_all enemy_fits es' \<and> length es' = length es"
proof (induction es arbitrary: st best g es' st' best' g')
  case Nil
  then show ?case by simp
next
  case (Cons e es)
  obtain e1 g1 where u: "update_enemy dt e g = (e1, g1)" by (cases "update_enemy dt e g")
  define st1 where "st1 = (if CheckCollisionRecs pr (erect e1) then GAME_OVER else st)"
  define best1 where "best1 = (if CheckCollisionRecs pr (erect e1) \<and> int_of_float sc > best
                               then int_of_float sc else best)"
  obtain es1 st2 best2 g2 where r: "enemy_loop pr dt sc es st1 best1 g1 = (es1, st2, best2, g2)"
    by (cases "enemy_loop pr dt sc es st1 best1 g1")
  from Cons.prems(1) u r have eq: "es' = e1 # es1"
    by (simp add: st1_def best1_def)
  from Cons.prems(2) have "enemy_fits e" "list_all enemy_fits es" by simp_all
  from update_enemy_fits [OF this(1), of dt g] u have "enemy_fits e1" by simp
  with Cons.IH [OF r \<open>list_all enemy_fits es\<close>] eq show ?case by simp
qed

lemma ResetGame_inv:
  assumes "ResetGame g n = Inr g'" and "0 \<le> bestScore g" and "speed (player g) = 260"
  shows "game_inv g'"
proof -
  have n: "0 \<le> n" using assms(1) by (cases "0 \<le> n") (simp_all add: ResetGame_def)
  from ResetGame_Inr [OF n, of g] assms(1) obtain es g1 where
    sl: "spawn_loop (nat n) (gWeather g) (rng g) = (es, g1)" and
    g': "g' = g\<lparr>player := (player g)\<lparr>rect :=
                   \<lparr>x = 382, y = 380, width = 36, height = 36\<rparr>\<rparr>,
            enemies := es, score := 0, rng := g1\<rparr>"
    by auto
  from spawn_loop_elems [OF sl] spawn_enemy_fits have "list_all enemy_fits es"
    by (fastforce simp: list_all_iff)
  then show ?thesis using assms(2,3) by (simp add: g' game_inv_def)
qed

lemma playing_inv:
  assumes "game_inv g" and "playing inp g = Inr g'"
  shows "game_inv g'"
proof -
  from playing_total [of inp g] assms(2) obtain pm es st best g1 where
    m: "move_player inp (player g) = Inr pm" and
    l: "enemy_loop (rect (clamp_player pm)) (frameTime inp) (score g) (enemies g) (state g)
          (bestScore g) (rng g) = (es, st, best, g1)" and
    g': "g' = g\<lparr>state := st, player := clamp_player pm, enemies := es,
               score := score g + 60 * frameTime inp, bestScore := best,
               gWeather := debug_weather inp (gWeather g), rng := g1\<rparr>"
    by auto
  from assms(1) have a: "0 \<le> bestScore g" "speed (player g) = 260"
    "width (rect (player g)) = 36" "height (rect (player g)) = 36"
    "list_all enemy_fits (enemies g)"
    by (simp_all add: game_inv_def)
  from move_player_total [of inp "player g"] m a have pm: "speed pm = 260"
    "width (rect pm) = 36" "height (rect pm) = 36" by simp_all
  from enemy_loop_result [OF l] a(1) have "0 \<le> best" by (auto split: if_splits)
  moreover from enemy_loop_fits [OF l a(5)] have "list_all enemy_fits es" by simp
  moreover have "speed (clamp_player pm) = 260" "width (rect (clamp_player pm)) = 36"
    "height (rect (clamp_player pm)) = 36"
    using pm clamp_player_size [of pm] by simp_all
  moreover have "0 \<le> x (rect (clamp_player pm)) \<and> x (rect (clamp_player pm)) \<le> 764 \<and>
                 0 \<le> y (rect (clamp_player pm)) \<and> y (rect (clamp_player pm)) \<le> 414"
    using clamp_player_bounds [of pm] pm by simp
  ultimately show ?thesis by (simp add: g' game_inv_def)
qed

lemma frame_inv:
  assumes "game_inv g" and "frame inp g = Inr g'"
  shows "game_inv g'"
proof -
  from assms(1) have a: "0 \<le> bestScore g" "speed (player g) = 260"
    by (simp_all add: game_inv_def)
  have st: "game_inv (h\<lparr>state := s\<rparr>)" if "game_inv h" for h s
    using that by (simp add: game_inv_def)
  show ?thesis
  proof (cases "state g")
    case MENU
    show ?thesis
    proof (cases "IsKeyPressed inp KEY_SPACE \<or> IsKeyPressed inp KEY_ENTER")
      case True
      with MENU assms(2) obtain g1 where "ResetGame g ENEMY_COUNT = Inr g1"
        "g' = g1\<lparr>state := PLAYING\<rparr>"
        by (auto simp: frame_def split: sum.splits)
      with ResetGame_inv [OF this(1) a] st show ?thesis by simp
    next
      case False
      with MENU assms show ?thesis by (simp add: frame_def)
    qed
  next
    case PLAYING
    with assms(2) have "playing inp g = Inr g'" by (simp add: frame_def)
    with playing_inv [OF assms(1)] show ?thesis by simp
  next
    case GAME_OVER
    show ?thesis
    proof (cases "IsKeyPressed inp KEY_R")
      case True
      with GAME_OVER assms(2) obtain g1 where r: "ResetGame g ENEMY_COUNT = Inr g1"
        and g': "g' = (if IsKeyPressed inp KEY_ESCAPE then g1\<lparr>state := PLAYING, state := MENU\<rparr>
                        else g1\<lparr>state := PLAYING\<rparr>)"
        by (auto simp: frame_def game_over_def split: sum.splits)
      from ResetGame_inv [OF r a] show ?thesis unfolding g' by (simp add: game_inv_def)
    next
      case False
      with GAME_OVER assms show ?thesis
        by (auto simp: frame_def game_over_no_restart game_inv_def)
    qed
  qed
qed

lemma reachable_inv: "reachable g \<Longrightarrow> game_inv g"
proof (induction rule: reachable.induct)
  case (init w r g)
  then show ?case
    using ResetGame_inv [of "main_locals w r" ENEMY_COUNT g]
    by (simp add: main_init_def main_locals_def)
next
  case (step g inp g')
  then show ?case using frame_inv by blast
next
  case (weather g k)
  then show ?case by (simp add: game_inv_def SetWeather_def)
qed


section \<open>The claims\<close>

subsection \<open>C1: collision ends the run\<close>

text \<open>
  The claim fails in both halves. In the frame of the collision the best score is taken
  from the score as it stands at the test, and the frame adds its 60 * dt afterwards: from
  a score of 125.5 the frame leaves the score 126.5 and the best score 125, not 126. And a
  frame that begins in GameOver with R pressed runs \<^verbatim>\<open>ResetGame\<close>, which sets the score
  to 0.
\<close>

theorem C1_counterexample:
  "state demo_playing = PLAYING \<and> bestScore demo_playing = 7 \<and>
   map_sum id
     (\<lambda>g'. (state g', score g', bestScore g',
            list_ex (\<lambda>e. CheckCollisionRecs (rect (player g')) (erect e)) (enemies g')))
     (frame demo_input demo_playing) = Inr (GAME_OVER, 253 / 2, 125, True) \<and>
   max (7::int) \<lfloor>253 / 2 :: real\<rfloor> = 126 \<and>
   state demo_over = GAME_OVER \<and> score demo_over = 251 / 2 \<and>
   map_sum id score (frame demo_restart demo_over) = Inr 0"
proof -
  have a: "map_sum id
     (\<lambda>g'. (state g', score g', bestScore g',
            list_ex (\<lambda>e. CheckCollisionRecs (rect (player g')) (erect e)) (enemies g')))
     (frame demo_input demo_playing) = Inr (GAME_OVER, 253 / 2, 125, True)"
    by (simp add: frame_def playing_def move_player_def normalise_def float_div_def
        move_dir_def clamp_player_def update_enemy_def CheckCollisionRecs_def int_of_float_def
        IsKeyDown_def GetFrameTime_def Let_def demo_playing_def demo_input_def)
  have b: "map_sum id score (frame demo_restart demo_over) = Inr 0"
    by (simp add: frame_def game_over_def demo_over_def demo_playing_def demo_restart_def
        IsKeyPressed_def ResetGame_def split: prod.splits)
  have c: "max (7::int) \<lfloor>253 / 2 :: real\<rfloor> = 126" by simp
  from a b c show ?thesis by (simp add: demo_over_def demo_playing_def)
qed

text \<open>
  C1, as the code has it. A frame in Playing always returns and adds 60 * dt to the score.
  If, at the collision test of that frame (player and obstacles already moved), some
  obstacle overlaps the player, the state after the frame is GameOver and the best score
  is the larger of the old best score and the floor of the score as it stood when the
  frame began, for a score within the range of an \<^verbatim>\<open>int\<close>. The best score is not negative
  in any reachable state (\<open>reachable_inv\<close>). A frame that begins in GameOver and in which
  R is not pressed leaves the score unchanged.
\<close>

theorem C1_collision_game_over:
  "(state g = PLAYING \<and> 0 \<le> bestScore g \<and>
    - 2147483649 < score g \<and> score g < 2147483648 \<longrightarrow>
      (\<exists>g'. frame inp g = Inr g' \<and> score g' = score g + 60 * frameTime inp \<and>
         ((\<exists>e\<in>set (enemies g'). CheckCollisionRecs (rect (player g')) (erect e)) \<longrightarrow>
            state g' = GAME_OVER \<and> bestScore g' = max (bestScore g) \<lfloor>score g\<rfloor>))) \<and>
   (state g = GAME_OVER \<and> \<not> IsKeyPressed inp KEY_R \<longrightarrow>
      (\<exists>g'. frame inp g = Inr g' \<and> score g' = score g))"
proof (intro conjI impI)
  assume a: "state g = PLAYING \<and> 0 \<le> bestScore g \<and>
    - 2147483649 < score g \<and> score g < 2147483648"
  then have f: "frame inp g = playing inp g" by (simp add: frame_def)
  from a have "0 \<le> bestScore g" "- 2147483649 < score g" "score g < 2147483648"
    by simp_all
  from playing_collision [OF this, of inp]
  show "\<exists>g'. frame inp g = Inr g' \<and> score g' = score g + 60 * frameTime inp \<and>
         ((\<exists>e\<in>set (enemies g'). CheckCollisionRecs (rect (player g')) (erect e)) \<longrightarrow>
            state g' = GAME_OVER \<and> bestScore g' = max (bestScore g) \<lfloor>score g\<rfloor>)"
    unfolding f .
next
  assume a: "state g = GAME_OVER \<and> \<not> IsKeyPressed inp KEY_R"
  then show "\<exists>g'. frame inp g = Inr g' \<and> score g' = score g"
    by (simp add: frame_def game_over_no_restart)
qed

theorem C1_collision_game_over_witness:
  "state demo_playing = PLAYING \<and> 0 \<le> bestScore demo_playing \<and>
   - 2147483649 < score demo_playing \<and> score demo_playing < 2147483648 \<and>
   (\<exists>g'. frame demo_input demo_playing = Inr g' \<and> score g' = 253 / 2 \<and>
      (\<exists>e\<in>set (enemies g'). CheckCollisionRecs (rect (player g')) (erect e)) \<and>
      state g' = GAME_OVER \<and> bestScore g' = 125) \<and>
   state demo_over = GAME_OVER \<and> \<not> IsKeyPressed demo_input KEY_R \<and>
   (\<exists>g'. frame demo_input demo_over = Inr g' \<and> score g' = 251 / 2)"
proof -
  have hit: "map_sum id
     (\<lambda>g'. list_ex (\<lambda>e. CheckCollisionRecs (rect (player g')) (erect e)) (enemies g'))
     (frame demo_input demo_playing) = Inr True"
    by (simp add: frame_def playing_def move_player_def normalise_def float_div_def
        move_dir_def clamp_player_def update_enemy_def CheckCollisionRecs_def int_of_float_def
        IsKeyDown_def GetFrameTime_def Let_def demo_playing_def demo_input_def)
  have h: "state demo_playing = PLAYING \<and> 0 \<le> bestScore demo_playing \<and>
    - 2147483649 < score demo_playing \<and> score demo_playing < 2147483648"
    "state demo_over = GAME_OVER \<and> \<not> IsKeyPressed demo_input KEY_R"
    by (simp_all add: demo_over_def demo_playing_def demo_input_def IsKeyPressed_def)
  have v: "score demo_playing = 251 / 2" "bestScore demo_playing = 7"
    "score demo_over = 251 / 2" "frameTime demo_input = 1 / 60"
    by (simp_all add: demo_over_def demo_playing_def demo_input_def)
  from C1_collision_game_over [of demo_playing demo_input] h(1) obtain g1 where
    g1: "frame demo_input demo_playing = Inr g1" "score g1 = 253 / 2"
      "(\<exists>e\<in>set (enemies g1). CheckCollisionRecs (rect (player g1)) (erect e)) \<longrightarrow>
         state g1 = GAME_OVER \<and> bestScore g1 = 125"
    unfolding v by auto
  from hit g1(1) have "\<exists>e\<in>set (enemies g1). CheckCollisionRecs (rect (player g1)) (erect e)"
    by (simp add: list_ex_iff)
  with g1 have p: "\<exists>g'. frame demo_input demo_playing = Inr g' \<and> score g' = 253 / 2 \<and>
      (\<exists>e\<in>set (enemies g'). CheckCollisionRecs (rect (player g')) (erect e)) \<and>
      state g' = GAME_OVER \<and> bestScore g' = 125" by blast
  from C1_collision_game_over [of demo_over demo_input] h(2)
  have q: "\<exists>g'. frame demo_input demo_over = Inr g' \<and> score g' = 251 / 2"
    unfolding v by blast
  from p q h show ?thesis by simp
qed

subsection \<open>C2: the player stays on the screen\<close>

text \<open>
  C2. After every frame in Playing, whatever the keys, the frame time and the position
  before, the player's rectangle lies within \<open>[0, SCREEN_W - width] \<times> [0, SCREEN_H - height]\<close>.
  The player is 36 by 36 in every reachable state (\<open>reachable_inv\<close>); the theorem needs
  only that it is no larger than the screen.
\<close>

theorem C2_player_stays_on_screen:
  assumes "state g = PLAYING"
    and "width (rect (player g)) \<le> of_int SCREEN_W"
    and "height (rect (player g)) \<le> of_int SCREEN_H"
  shows "\<exists>g'. frame inp g = Inr g' \<and>
           width (rect (player g')) = width (rect (player g)) \<and>
           height (rect (player g')) = height (rect (player g)) \<and>
           0 \<le> x (rect (player g')) \<and>
           x (rect (player g')) \<le> of_int SCREEN_W - width (rect (player g')) \<and>
           0 \<le> y (rect (player g')) \<and>
           y (rect (player g')) \<le> of_int SCREEN_H - height (rect (player g'))"
proof -
  have f: "frame inp g = playing inp g"
    using assms(1) by (simp add: frame_def)
  from move_player_total [of inp "player g"] obtain pm where
    m: "move_player inp (player g) = Inr pm" and
    sz: "width (rect pm) = width (rect (player g))" "height (rect pm) = height (rect (player g))"
    by blast
  from playing_player [OF m] obtain g' where
    g': "playing inp g = Inr g'" "player g' = clamp_player pm" by blast
  have "width (rect pm) \<le> 800" "height (rect pm) \<le> 450"
    using assms(2,3) sz by simp_all
  from clamp_player_bounds [OF this] clamp_player_size [of pm] sz g' f
  show ?thesis by simp
qed

theorem C2_player_stays_on_screen_witness:
  "state demo_playing = PLAYING \<and>
   width (rect (player demo_playing)) \<le> of_int SCREEN_W \<and>
   height (rect (player demo_playing)) \<le> of_int SCREEN_H \<and>
   move_player demo_long (player demo_playing)
     = Inr \<lparr>rect = \<lparr>x = 2982, y = 380, width = 36, height = 36\<rparr>, speed = 260\<rparr> \<and>
   (\<exists>g'. frame demo_long demo_playing = Inr g' \<and>
      rect (player g') = \<lparr>x = 764, y = 380, width = 36, height = 36\<rparr> \<and>
      0 \<le> x (rect (player g')) \<and>
      x (rect (player g')) \<le> of_int SCREEN_W - width (rect (player g')) \<and>
      0 \<le> y (rect (player g')) \<and>
      y (rect (player g')) \<le> of_int SCREEN_H - height (rect (player g')))"
proof -
  have m: "move_player demo_long (player demo_playing)
     = Inr \<lparr>rect = \<lparr>x = 2982, y = 380, width = 36, height = 36\<rparr>, speed = 260\<rparr>"
    by (simp add: move_player_def normalise_def float_div_def move_dir_def demo_playing_def
        demo_long_def IsKeyDown_def GetFrameTime_def Let_def)
  have f: "frame demo_long demo_playing = playing demo_long demo_playing"
    by (simp add: frame_def demo_playing_def)
  from playing_player [OF m] obtain g1 where
    g1: "playing demo_long demo_playing = Inr g1"
    and p: "rect (player g1) = \<lparr>x = 764, y = 380, width = 36, height = 36\<rparr>"
    by (auto simp: clamp_player_def)
  show ?thesis
    using C2_player_stays_on_screen [of demo_playing demo_long] f g1 p m
    by (simp add: demo_playing_def)
qed

subsection \<open>C3: where ResetGame puts an obstacle\<close>

text \<open>
  C3 says that x is drawn from \<open>[0, SCREEN_W - width]\<close>, so that \<open>x + width \<le> SCREEN_W\<close> for
  every kind. \<^verbatim>\<open>ResetGame\<close> draws x from \<open>[0, SCREEN_W - 40]\<close> before the width is known
  (\<open>spawn_enemy_x\<close>). That keeps suns and rain drops on the screen
  (\<open>spawn_enemy_on_screen\<close>), but not clouds: with the draws 760 for x and 32 for the
  width, the cloud is 72 wide at x = 760 and reaches to 832. The recycle branch does
  subtract the obstacle's own width (\<open>recycle_x\<close>).
\<close>

theorem C3_overcast_spawn_off_screen:
  "gWeather cloudy_edge = CLOUDY \<and>
   map_sum id (\<lambda>g'. map (\<lambda>e. (x (erect e), width (erect e))) (enemies g'))
     (ResetGame cloudy_edge 1) = Inr [(760, 72)] \<and>
   of_int SCREEN_W < (760::real) + 72"
  by (simp add: cloudy_edge_def main_locals_def ResetGame_def spawn_enemy_def
      GetRandomValue_def Let_def)

subsection \<open>C4: the ranges of a recycled position\<close>

text \<open>
  The claim gives the recycled y the spawn range \<open>[-SCREEN_H, -20]\<close>. \<^verbatim>\<open>ResetGame\<close> can
  place an obstacle at y = -450; the recycle branch never does, whatever the generator
  hands out.
\<close>

theorem C4_recycle_range_counterexample:
  "y (erect (fst (spawn_enemy SUNNY (sconst 0)))) = - 450 \<and>
   of_int (SCREEN_H + 10) < y (erect fallen_sun) + speedY fallen_sun * (1 / 60) \<and>
   \<not> (\<exists>g. y (erect (fst (update_enemy (1 / 60) fallen_sun g))) = - 450)"
proof -
  have a: "y (erect (fst (spawn_enemy SUNNY (sconst 0)))) = - 450"
    by (simp add: spawn_enemy_def GetRandomValue_def Let_def)
  have b: "y (erect (fst (update_enemy (1 / 60) fallen_sun g))) \<noteq> - 450" for g
  proof -
    let ?e1 = "fallen_sun\<lparr>erect := (erect fallen_sun)\<lparr>y := y (erect fallen_sun)
                 + speedY fallen_sun * (1 / 60)\<rparr>\<rparr>"
    have "update_enemy (1 / 60) fallen_sun g = recycle ?e1 g"
      by (rule update_enemy_recycled [OF fallen_recycled(1)])
    with recycle_y [of ?e1 g] show ?thesis by auto
  qed
  from a b fallen_recycled(1) show ?thesis by blast
qed

text \<open>
  C4, as the code has it. When an obstacle of a whole width that fits the screen is
  recycled, the positions it can get are exactly the integer points with
  x in \<open>[0, SCREEN_W - width]\<close> and y in \<open>[-200, -20]\<close>: each of them is reached for some
  generator, and no other is. (How the values are distributed within the range is a
  property of the generator, which is not part of the program.)
\<close>

theorem C4_recycle_position_ranges:
  assumes "of_int (SCREEN_H + 10) < y (erect e) + speedY e * dt" and "enemy_fits e"
  shows "{(x (erect e'), y (erect e')) | e' g g'. update_enemy dt e g = (e', g')}
           = {(of_int a, of_int b) | a b :: int.
                0 \<le> a \<and> of_int a \<le> of_int SCREEN_W - width (erect e) \<and>
                - 200 \<le> b \<and> b \<le> - 20}"
    (is "?L = ?R")
proof (intro set_eqI iffI)
  let ?e1 = "e\<lparr>erect := (erect e)\<lparr>y := y (erect e) + speedY e * dt\<rparr>\<rparr>"
  have fits: "enemy_fits ?e1" using assms(2) by (simp add: enemy_fits_def)
  fix p assume "p \<in> ?L"
  then obtain e' g g' where p: "p = (x (erect e'), y (erect e'))"
    and u: "update_enemy dt e g = (e', g')" by blast
  have e': "e' = fst (recycle ?e1 g)"
    using assms(1) u by (simp add: update_enemy_recycled)
  from recycle_x [OF fits, of g] recycle_y [of ?e1 g] show "p \<in> ?R"
    unfolding p e' by auto
next
  let ?e1 = "e\<lparr>erect := (erect e)\<lparr>y := y (erect e) + speedY e * dt\<rparr>\<rparr>"
  fix p assume "p \<in> ?R"
  then obtain a b :: int where p: "p = (of_int a, of_int b)"
    and a: "0 \<le> a" "of_int a \<le> 800 - width (erect e)" and b: "- 200 \<le> b" "b \<le> - 20"
    by auto
  obtain w :: int where w: "int_of_float (width (erect e)) = w" "width (erect e) = of_int w"
    using assms(2) unfolding enemy_fits_def by metis
  from a(2) w have aw: "a \<le> 800 - w" by (simp add: w(2))
  let ?g = "nat (b - (- 200)) ## nat (a - 0) ## sconst 0"
  have y: "GetRandomValue (- 200) (- 20) ?g = (b, nat (a - 0) ## sconst 0)"
    by (rule GetRandomValue_hits [OF b])
  have x: "GetRandomValue 0 (800 - w) (nat (a - 0) ## sconst 0) = (a, sconst 0)"
    by (rule GetRandomValue_hits [OF a(1) aw])
  have "x (erect (fst (recycle ?e1 ?g))) = of_int a \<and> y (erect (fst (recycle ?e1 ?g))) = of_int b"
    using x y w by (simp add: recycle_def Let_def split: prod.splits)
  moreover have "update_enemy dt e ?g = recycle ?e1 ?g"
    by (rule update_enemy_recycled [OF assms(1)])
  ultimately have "update_enemy dt e ?g = (fst (recycle ?e1 ?g), snd (recycle ?e1 ?g)) \<and>
     p = (x (erect (fst (recycle ?e1 ?g))), y (erect (fst (recycle ?e1 ?g))))"
    using p by simp
  then show "p \<in> ?L" by blast
qed

theorem C4_recycle_position_ranges_witness:
  "of_int (SCREEN_H + 10) < y (erect fallen_cloud) + speedY fallen_cloud * (1 / 60) \<and>
   enemy_fits fallen_cloud \<and>
   {(x (erect e'), y (erect e')) | e' g g'. update_enemy (1 / 60) fallen_cloud g = (e', g')}
     = {(of_int a, of_int b) | a b :: int. 0 \<le> a \<and> a \<le> 728 \<and> - 200 \<le> b \<and> b \<le> - 20}"
proof -
  have "(real_of_int a \<le> of_int SCREEN_W - width (erect fallen_cloud)) = (a \<le> 728)" for a
    by (simp add: fallen_cloud_def)
  then show ?thesis
    using C4_recycle_position_ranges [OF fallen_recycled(2) fallen_fits(2)]
      fallen_recycled(2) fallen_fits(2)
    by simp
qed

subsection \<open>C5: ResetGame in the rain\<close>

text \<open>
  C5. With \<^verbatim>\<open>gWeather\<close> = RAINY and a count \<open>n \<ge> 0\<close>, \<^verbatim>\<open>ResetGame\<close> returns, and
  afterwards there are exactly \<open>n\<close> obstacles, each with width in [3,6], height in [14,24],
  speed in [220,360] and kind RAINY.
\<close>

theorem C5_reset_precipitation:
  assumes "0 \<le> n" and "gWeather g = RAINY"
  shows "\<exists>g'. ResetGame g n = Inr g' \<and> int (length (enemies g')) = n \<and>
           (\<forall>e\<in>set (enemies g').
              3 \<le> width (erect e) \<and> width (erect e) \<le> 6 \<and>
              14 \<le> height (erect e) \<and> height (erect e) \<le> 24 \<and>
              220 \<le> speedY e \<and> speedY e \<le> 360 \<and> kind e = RAINY)"
proof -
  from ResetGame_Inr [OF assms(1), of g] obtain es g1 where
    sl: "spawn_loop (nat n) RAINY (rng g) = (es, g1)" and
    rg: "ResetGame g n = Inr (g\<lparr>player := (player g)\<lparr>rect :=
                   \<lparr>x = 382, y = 380, width = 36, height = 36\<rparr>\<rparr>,
            enemies := es, score := 0, rng := g1\<rparr>)"
    using assms(2) by auto
  from spawn_loop_elems [OF sl] have len: "length es = nat n"
    and el: "\<forall>e\<in>set es. \<exists>g1 g2. spawn_enemy 2 g1 = (e, g2)" by auto
  have "\<forall>e\<in>set es. 3 \<le> width (erect e) \<and> width (erect e) \<le> 6 \<and>
              14 \<le> height (erect e) \<and> height (erect e) \<le> 24 \<and>
              220 \<le> speedY e \<and> speedY e \<le> 360 \<and> kind e = 2"
    using el spawn_enemy_rainy by blast
  with rg len assms(1) show ?thesis by simp
qed

theorem C5_reset_precipitation_witness:
  "(0::int) \<le> 2 \<and> gWeather rainy_start = RAINY \<and>
   (\<exists>g'. ResetGame rainy_start 2 = Inr g' \<and>
      enemies g' = [\<lparr>erect = \<lparr>x = 5, y = - 445, width = 4, height = 19\<rparr>,
                     speedY = 225, kind = RAINY\<rparr>,
                   \<lparr>erect = \<lparr>x = 5, y = - 445, width = 4, height = 19\<rparr>,
                     speedY = 225, kind = RAINY\<rparr>] \<and>
      int (length (enemies g')) = 2 \<and>
      (\<forall>e\<in>set (enemies g').
         3 \<le> width (erect e) \<and> width (erect e) \<le> 6 \<and>
         14 \<le> height (erect e) \<and> height (erect e) \<le> 24 \<and>
         220 \<le> speedY e \<and> speedY e \<le> 360 \<and> kind e = RAINY))"
proof -
  have r: "ResetGame rainy_start 2 = Inr (rainy_start\<lparr>
      player := \<lparr>rect = \<lparr>x = 382, y = 380, width = 36, height = 36\<rparr>, speed = 260\<rparr>,
      enemies := [\<lparr>erect = \<lparr>x = 5, y = - 445, width = 4, height = 19\<rparr>,
                     speedY = 225, kind = RAINY\<rparr>,
                   \<lparr>erect = \<lparr>x = 5, y = - 445, width = 4, height = 19\<rparr>,
                     speedY = 225, kind = RAINY\<rparr>], score := 0, rng := sconst 5\<rparr>)"
    by (simp add: rainy_start_def SetWeather_def main_locals_def ResetGame_def spawn_enemy_def
        GetRandomValue_def Let_def numeral_2_eq_2)
  show ?thesis
    using C5_reset_precipitation [of 2 rainy_start] r
    by (simp add: rainy_start_def SetWeather_def main_locals_def)
qed

subsection \<open>C6: what recycling leaves behind\<close>

text \<open>
  C6. An obstacle that the frame recycles, because its y after falling exceeds
  \<open>SCREEN_H + 10\<close>, ends with y in [-200,-20], x in \<open>[0, SCREEN_W - width]\<close> for its own
  (unchanged) width, a speed in the range of its kind (rain [220,360], cloud [120,180],
  sun [160,260]) and the kind it had. The obstacle is one with a whole width that fits
  the screen, as every obstacle of a reachable state is (\<open>reachable_inv\<close>).
\<close>

theorem C6_recycle_postconditions:
  assumes "of_int (SCREEN_H + 10) < y (erect e) + speedY e * dt"
    and "enemy_fits e"
    and "update_enemy dt e g = (e', g')"
  shows "- 200 \<le> y (erect e') \<and> y (erect e') \<le> - 20 \<and>
         0 \<le> x (erect e') \<and> x (erect e') \<le> of_int SCREEN_W - width (erect e') \<and>
         width (erect e') = width (erect e) \<and>
         (kind e = RAINY \<longrightarrow> 220 \<le> speedY e' \<and> speedY e' \<le> 360) \<and>
         (kind e = CLOUDY \<longrightarrow> 120 \<le> speedY e' \<and> speedY e' \<le> 180) \<and>
         (kind e = SUNNY \<longrightarrow> 160 \<le> speedY e' \<and> speedY e' \<le> 260) \<and>
         kind e' = kind e"
proof -
  let ?e1 = "e\<lparr>erect := (erect e)\<lparr>y := y (erect e) + speedY e * dt\<rparr>\<rparr>"
  have e': "e' = fst (recycle ?e1 g)"
    using assms(1,3) by (simp add: update_enemy_recycled)
  have fits: "enemy_fits ?e1" using assms(2) by (simp add: enemy_fits_def)
  from recycle_y [of ?e1 g] have "- 200 \<le> y (erect e') \<and> y (erect e') \<le> - 20"
    unfolding e' by auto
  moreover from recycle_x [OF fits, of g]
  have "0 \<le> x (erect e') \<and> x (erect e') \<le> 800 - width (erect e)"
    unfolding e' by auto
  moreover have "width (erect e') = width (erect e)"
    unfolding e' using recycle_size [of ?e1 g] by simp
  moreover have "kind e' = kind e"
    unfolding e' using recycle_kind [of ?e1 g] by simp
  moreover have "(kind e = 2 \<longrightarrow> 220 \<le> speedY e' \<and> speedY e' \<le> 360) \<and>
         (kind e = 1 \<longrightarrow> 120 \<le> speedY e' \<and> speedY e' \<le> 180) \<and>
         (kind e = 0 \<longrightarrow> 160 \<le> speedY e' \<and> speedY e' \<le> 260)"
    unfolding e' using recycle_speed [of ?e1 g] by simp
  ultimately show ?thesis by simp
qed

theorem C6_recycle_postconditions_witness:
  "of_int (SCREEN_H + 10) < y (erect fallen_sun) + speedY fallen_sun * (1 / 60) \<and>
   enemy_fits fallen_sun \<and> kind fallen_sun = SUNNY \<and>
   update_enemy (1 / 60) fallen_sun (sconst 7)
     = (\<lparr>erect = \<lparr>x = 7, y = - 193, width = 30, height = 30\<rparr>, speedY = 167, kind = SUNNY\<rparr>,
        sconst 7) \<and>
   of_int (SCREEN_H + 10) < y (erect fallen_cloud) + speedY fallen_cloud * (1 / 60) \<and>
   enemy_fits fallen_cloud \<and> kind fallen_cloud = CLOUDY \<and>
   update_enemy (1 / 60) fallen_cloud (sconst 7)
     = (\<lparr>erect = \<lparr>x = 7, y = - 193, width = 72, height = 40\<rparr>, speedY = 127, kind = CLOUDY\<rparr>,
        sconst 7) \<and>
   of_int (SCREEN_H + 10) < y (erect fallen_rain) + speedY fallen_rain * (1 / 60) \<and>
   enemy_fits fallen_rain \<and> kind fallen_rain = RAINY \<and>
   update_enemy (1 / 60) fallen_rain (sconst 7)
     = (\<lparr>erect = \<lparr>x = 7, y = - 193, width = 3, height = 14\<rparr>, speedY = 227, kind = RAINY\<rparr>,
        sconst 7)"
proof -
  have u: "update_enemy (1 / 60) fallen_sun (sconst 7)
     = (\<lparr>erect = \<lparr>x = 7, y = - 193, width = 30, height = 30\<rparr>, speedY = 167, kind = SUNNY\<rparr>,
        sconst 7)"
    "update_enemy (1 / 60) fallen_cloud (sconst 7)
     = (\<lparr>erect = \<lparr>x = 7, y = - 193, width = 72, height = 40\<rparr>, speedY = 127, kind = CLOUDY\<rparr>,
        sconst 7)"
    "update_enemy (1 / 60) fallen_rain (sconst 7)
     = (\<lparr>erect = \<lparr>x = 7, y = - 193, width = 3, height = 14\<rparr>, speedY = 227, kind = RAINY\<rparr>,
        sconst 7)"
    by (simp_all add: update_enemy_def recycle_def GetRandomValue_def Let_def int_of_float_def
        fallen_sun_def fallen_cloud_def fallen_rain_def)
  show ?thesis
    using C6_recycle_postconditions [OF fallen_recycled(1) fallen_fits(1) u(1)]
      C6_recycle_postconditions [OF fallen_recycled(2) fallen_fits(2) u(2)]
      C6_recycle_postconditions [OF fallen_recycled(3) fallen_fits(3) u(3)]
      fallen_recycled fallen_fits u
    by (simp add: fallen_sun_def fallen_cloud_def fallen_rain_def)
qed

subsection \<open>C7: diagonal movement is normalised\<close>

text \<open>
  C7. With a positive frame time and the player's positive speed, and with \<open>m\<close> the
  direction the keys give and \<open>len\<close> its length: whenever \<open>m\<close> is not zero (a diagonal in
  particular), \<open>len\<close> is not zero, the normalisation returns \<open>m\<close> divided by \<open>len\<close>, a
  vector of length 1 with the direction of \<open>m\<close>, and the player moves, before clamping,
  by that vector times \<open>speed * dt\<close>: a displacement of magnitude exactly \<open>speed * dt\<close>,
  not \<open>speed * dt * sqrt 2\<close>. For a diagonal, \<open>len\<close> is \<open>sqrt 2\<close>. When the keys cancel or
  none is held, the division by \<open>len = 0\<close> would fail; the guard skips it, the direction
  stays (0, 0) and the player is returned as it was.
\<close>

theorem C7_diagonal_speed_normalised:
  assumes "0 < frameTime inp" and "0 < speed p"
  shows "(let m = move_dir inp;
              len = sqrt (fst m * fst m + snd m * snd m);
              n = (fst m / len, snd m / len)
          in (m \<noteq> (0, 0) \<longrightarrow>
                len \<noteq> 0 \<and> normalise m = Inr n \<and> (fst n)\<^sup>2 + (snd n)\<^sup>2 = 1 \<and>
                (\<exists>pm. move_player inp p = Inr pm \<and>
                   x (rect pm) - x (rect p) = fst n * speed p * frameTime inp \<and>
                   y (rect pm) - y (rect p) = snd n * speed p * frameTime inp \<and>
                   sqrt ((x (rect pm) - x (rect p))\<^sup>2 + (y (rect pm) - y (rect p))\<^sup>2)
                     = speed p * frameTime inp \<and>
                   sqrt ((x (rect pm) - x (rect p))\<^sup>2 + (y (rect pm) - y (rect p))\<^sup>2)
                     \<noteq> speed p * frameTime inp * sqrt 2)) \<and>
             (fst m \<noteq> 0 \<and> snd m \<noteq> 0 \<longrightarrow>
                len = sqrt 2 \<and> normalise m = Inr (fst m / sqrt 2, snd m / sqrt 2)) \<and>
             (m = (0, 0) \<longrightarrow>
                float_div (fst m) len = Inl DivisionByZero \<and>
                normalise m = Inr (0, 0) \<and> move_player inp p = Inr p))"
proof -
  define m where "m = move_dir inp"
  define len where "len = sqrt (fst m * fst m + snd m * snd m)"
  define n where "n = (fst m / len, snd m / len)"
  let ?c = "speed p * frameTime inp"
  have c: "0 < ?c" using assms by simp
  have A: "len \<noteq> 0 \<and> normalise m = Inr n \<and> (fst n)\<^sup>2 + (snd n)\<^sup>2 = 1 \<and>
                (\<exists>pm. move_player inp p = Inr pm \<and>
                   x (rect pm) - x (rect p) = fst n * speed p * frameTime inp \<and>
                   y (rect pm) - y (rect p) = snd n * speed p * frameTime inp \<and>
                   sqrt ((x (rect pm) - x (rect p))\<^sup>2 + (y (rect pm) - y (rect p))\<^sup>2) = ?c \<and>
                   sqrt ((x (rect pm) - x (rect p))\<^sup>2 + (y (rect pm) - y (rect p))\<^sup>2)
                     \<noteq> ?c * sqrt 2)"
    if nz: "m \<noteq> (0, 0)"
  proof -
    from nz have nz': "fst m \<noteq> 0 \<or> snd m \<noteq> 0" by (simp add: prod_eq_iff)
    have "0 < len" unfolding len_def by (rule length_positive [OF nz'])
    then have len: "len \<noteq> 0" by linarith
    from normalise_nonzero [OF nz'] have norm: "normalise m = Inr n"
      by (simp add: n_def len_def)
    from unit_length [OF nz'] have unit: "(fst n)\<^sup>2 + (snd n)\<^sup>2 = 1"
      by (simp add: n_def len_def)
    let ?pm = "p\<lparr>rect := (rect p)\<lparr>x := x (rect p) + fst n * speed p * frameTime inp,
                                   y := y (rect p) + snd n * speed p * frameTime inp\<rparr>\<rparr>"
    from move_player_Inr [of inp n p] norm have mp: "move_player inp p = Inr ?pm"
      by (simp add: m_def)
    have dx: "x (rect ?pm) - x (rect p) = fst n * ?c" "y (rect ?pm) - y (rect p) = snd n * ?c"
      by simp_all
    have mag: "sqrt ((x (rect ?pm) - x (rect p))\<^sup>2 + (y (rect ?pm) - y (rect p))\<^sup>2) = ?c"
      unfolding dx using displacement_magnitude [OF unit, of ?c] c by simp
    have "sqrt 2 \<noteq> (1::real)" by simp
    then have "?c \<noteq> ?c * sqrt 2" using assms by auto
    with mag have "sqrt ((x (rect ?pm) - x (rect p))\<^sup>2 + (y (rect ?pm) - y (rect p))\<^sup>2)
                     \<noteq> ?c * sqrt 2" by simp
    with len norm unit mp mag show ?thesis
      by (intro conjI exI [of _ ?pm]) (simp_all add: mult.assoc)
  qed
  have B: "len = sqrt 2 \<and> normalise m = Inr (fst m / sqrt 2, snd m / sqrt 2)"
    if d: "fst m \<noteq> 0 \<and> snd m \<noteq> 0"
  proof -
    from d move_dir_diagonal [of inp] have l: "len = sqrt 2" by (simp add: len_def m_def)
    from d normalise_nonzero [of m] have "normalise m = Inr (fst m / len, snd m / len)"
      by (simp add: len_def)
    with l show ?thesis by simp
  qed
  have C: "float_div (fst m) len = Inl DivisionByZero \<and>
           normalise m = Inr (0, 0) \<and> move_player inp p = Inr p"
    if z: "m = (0, 0)"
  proof -
    from z have "len = 0" by (simp add: len_def)
    then have "float_div (fst m) len = Inl DivisionByZero" by (simp add: float_div_zero)
    moreover from z have nm: "normalise m = Inr (0, 0)" by (simp add: normalise_zero)
    moreover from move_player_Inr [of inp "(0, 0)" p] nm have "move_player inp p = Inr p"
      by (simp add: m_def)
    ultimately show ?thesis by simp
  qed
  from A B C show ?thesis
    unfolding Let_def m_def [symmetric] len_def [symmetric] n_def [symmetric] by blast
qed

theorem C7_diagonal_speed_normalised_witness:
  "0 < frameTime demo_diagonal \<and> 0 < speed (player demo_playing) \<and>
   move_dir demo_diagonal = (1, 1) \<and> move_dir demo_diagonal \<noteq> (0, 0) \<and>
   normalise (move_dir demo_diagonal) = Inr (1 / sqrt 2, 1 / sqrt 2) \<and>
   (\<exists>pm. move_player demo_diagonal (player demo_playing) = Inr pm \<and>
      x (rect pm) - 382 = 1 / sqrt 2 * 260 * (1 / 60) \<and>
      y (rect pm) - 380 = 1 / sqrt 2 * 260 * (1 / 60) \<and>
      sqrt ((x (rect pm) - 382)\<^sup>2 + (y (rect pm) - 380)\<^sup>2) = 260 * (1 / 60)) \<and>
   move_dir demo_idle = (0, 0) \<and>
   move_player demo_idle (player demo_playing) = Inr (player demo_playing)"
proof -
  have d: "move_dir demo_diagonal = (1, 1)" "move_dir demo_idle = (0, 0)"
    by (simp_all add: move_dir_def demo_diagonal_def demo_idle_def IsKeyDown_def)
  have h: "0 < frameTime demo_diagonal" "0 < speed (player demo_playing)"
    "0 < frameTime demo_idle"
    by (simp_all add: demo_diagonal_def demo_playing_def demo_idle_def)
  have v: "frameTime demo_diagonal = 1 / 60" "speed (player demo_playing) = 260"
    "x (rect (player demo_playing)) = 382" "y (rect (player demo_playing)) = 380"
    by (simp_all add: demo_diagonal_def demo_playing_def)
  show ?thesis
    using C7_diagonal_speed_normalised [OF h(1) h(2)]
      C7_diagonal_speed_normalised [OF h(3) h(2)] h
    unfolding Let_def d v by auto
qed

subsection \<open>C8: a frame time that is not positive\<close>




subsection \<open>C9: a weather value outside the enumeration\<close>

text \<open>
  The claim wants every obstacle to carry a kind in {0, 1, 2} even after the setter was
  given another integer. \<^verbatim>\<open>SetWeather\<close> stores what it gets, and \<^verbatim>\<open>ResetGame\<close> copies
  it into the obstacle: after \<^verbatim>\<open>SetWeather(7)\<close> the obstacle's kind is 7.
\<close>

theorem C9_stray_weather_counterexample:
  "(7::int) \<notin> {SUNNY, CLOUDY, RAINY} \<and>
   map_sum id (\<lambda>g'. map kind (enemies g')) (ResetGame stray_weather 1) = Inr [7]"
  by (simp add: stray_weather_def SetWeather_def main_locals_def ResetGame_def spawn_enemy_def
      GetRandomValue_def Let_def)

text \<open>
  C9, as the code has it. An integer \<open>k\<close> outside {0, 1, 2} is stored unchanged. Every
  obstacle that \<^verbatim>\<open>ResetGame\<close> produces afterwards has the size and the speed of a sun
  (a square of side in [18,30], speed in [160,260]), and kind \<open>k\<close>; recycling it keeps the
  kind \<open>k\<close> and draws the speed from the sun's range again.
\<close>

theorem C9_out_of_range_weather_falls_back:
  assumes "k \<notin> {SUNNY, CLOUDY, RAINY}" and "0 \<le> n"
  shows "gWeather (SetWeather k g) = k \<and>
         (\<exists>g'. ResetGame (SetWeather k g) n = Inr g' \<and> int (length (enemies g')) = n \<and>
            (\<forall>e\<in>set (enemies g').
               18 \<le> width (erect e) \<and> width (erect e) \<le> 30 \<and>
               height (erect e) = width (erect e) \<and>
               160 \<le> speedY e \<and> speedY e \<le> 260 \<and> kind e = k \<and>
               kind (fst (recycle e r)) = k \<and>
               160 \<le> speedY (fst (recycle e r)) \<and> speedY (fst (recycle e r)) \<le> 260))"
proof -
  have k: "k \<noteq> 2" "k \<noteq> 1" using assms(1) by simp_all
  have w: "gWeather (SetWeather k g) = k" by (simp add: SetWeather_def)
  from ResetGame_Inr [OF assms(2), of "SetWeather k g"] obtain es g1 where
    sl: "spawn_loop (nat n) k (rng (SetWeather k g)) = (es, g1)" and
    rg: "ResetGame (SetWeather k g) n = Inr ((SetWeather k g)\<lparr>player := (player (SetWeather k g))\<lparr>rect :=
                   \<lparr>x = 382, y = 380, width = 36, height = 36\<rparr>\<rparr>,
            enemies := es, score := 0, rng := g1\<rparr>)"
    unfolding w by auto
  from spawn_loop_elems [OF sl] have len: "length es = nat n"
    and el: "\<forall>e\<in>set es. \<exists>g1 g2. spawn_enemy k g1 = (e, g2)" by auto
  have "\<forall>e\<in>set es. 18 \<le> width (erect e) \<and> width (erect e) \<le> 30 \<and>
               height (erect e) = width (erect e) \<and>
               160 \<le> speedY e \<and> speedY e \<le> 260 \<and> kind e = k \<and>
               kind (fst (recycle e r)) = k \<and>
               160 \<le> speedY (fst (recycle e r)) \<and> speedY (fst (recycle e r)) \<le> 260"
  proof
    fix e assume "e \<in> set es"
    with el obtain r1 r2 where "spawn_enemy k r1 = (e, r2)" by blast
    from spawn_enemy_else [OF this k] have s: "18 \<le> width (erect e) \<and> width (erect e) \<le> 30 \<and>
         height (erect e) = width (erect e) \<and>
         160 \<le> speedY e \<and> speedY e \<le> 260 \<and> kind e = k" .
    then have "kind e \<noteq> 2 \<and> kind e \<noteq> 1" using k by simp
    with recycle_speed [of e r] recycle_kind [of e r] s
    show "18 \<le> width (erect e) \<and> width (erect e) \<le> 30 \<and>
               height (erect e) = width (erect e) \<and>
               160 \<le> speedY e \<and> speedY e \<le> 260 \<and> kind e = k \<and>
               kind (fst (recycle e r)) = k \<and>
               160 \<le> speedY (fst (recycle e r)) \<and> speedY (fst (recycle e r)) \<le> 260"
      by simp
  qed
  with rg len assms(2) w show ?thesis by simp
qed

theorem C9_out_of_range_weather_falls_back_witness:
  "(7::int) \<notin> {SUNNY, CLOUDY, RAINY} \<and> (0::int) \<le> 1 \<and>
   gWeather stray_weather = 7 \<and>
   (\<exists>g'. ResetGame stray_weather 1 = Inr g' \<and>
      enemies g' = [\<lparr>erect = \<lparr>x = 0, y = - 450, width = 18, height = 18\<rparr>,
                     speedY = 160, kind = 7\<rparr>] \<and>
      (\<forall>e\<in>set (enemies g').
         18 \<le> width (erect e) \<and> width (erect e) \<le> 30 \<and>
         height (erect e) = width (erect e) \<and>
         160 \<le> speedY e \<and> speedY e \<le> 260 \<and> kind e = 7 \<and>
         kind (fst (recycle e (sconst 0))) = 7 \<and>
         160 \<le> speedY (fst (recycle e (sconst 0))) \<and>
         speedY (fst (recycle e (sconst 0))) \<le> 260))"
proof -
  have r: "ResetGame stray_weather 1 = Inr (stray_weather\<lparr>
      player := \<lparr>rect = \<lparr>x = 382, y = 380, width = 36, height = 36\<rparr>, speed = 260\<rparr>,
      enemies := [\<lparr>erect = \<lparr>x = 0, y = - 450, width = 18, height = 18\<rparr>,
                     speedY = 160, kind = 7\<rparr>], score := 0, rng := sconst 0\<rparr>)"
    by (simp add: stray_weather_def SetWeather_def main_locals_def ResetGame_def spawn_enemy_def
      GetRandomValue_def Let_def)
  show ?thesis
    using C9_out_of_range_weather_falls_back
      [of 7 1 "main_locals SUNNY (sconst 0)" "sconst 0", folded stray_weather_def] r
    by simp
qed

subsection \<open>C10: restart and back in the same frame\<close>

text \<open>
  C10. In a GameOver frame with both R and ESC pressed, \<^verbatim>\<open>ResetGame\<close> runs with the
  count 10 (score 0, the player back at its start, ten obstacles spawned afresh from the
  current weather) and the frame ends in Menu, not Playing.
\<close>

theorem C10_restart_and_back_together:
  assumes "state g = GAME_OVER"
    and "IsKeyPressed inp KEY_R" and "IsKeyPressed inp KEY_ESCAPE"
  shows "\<exists>g1. ResetGame g ENEMY_COUNT = Inr g1 \<and>
           frame inp g = Inr (g1\<lparr>state := MENU\<rparr>) \<and>
           score g1 = 0 \<and>
           player g1 = (player g)\<lparr>rect := \<lparr>x = 382, y = 380, width = 36, height = 36\<rparr>\<rparr> \<and>
           (enemies g1, rng g1) = spawn_loop 10 (gWeather g) (rng g) \<and>
           length (enemies g1) = 10 \<and>
           bestScore g1 = bestScore g \<and> gWeather g1 = gWeather g"
proof -
  from ResetGame_Inr [of ENEMY_COUNT g] obtain es r1 where
    sl: "spawn_loop (nat 10) (gWeather g) (rng g) = (es, r1)" and
    rg: "ResetGame g 10 = Inr (g\<lparr>player := (player g)\<lparr>rect :=
                   \<lparr>x = 382, y = 380, width = 36, height = 36\<rparr>\<rparr>,
            enemies := es, score := 0, rng := r1\<rparr>)"
    by auto
  from spawn_loop_elems [OF sl] have len: "length es = 10" by simp
  have "frame inp g = Inr ((g\<lparr>player := (player g)\<lparr>rect :=
                   \<lparr>x = 382, y = 380, width = 36, height = 36\<rparr>\<rparr>,
            enemies := es, score := 0, rng := r1\<rparr>)\<lparr>state := MENU\<rparr>)"
    using assms rg by (simp add: frame_def game_over_def)
  with rg sl len show ?thesis by simp
qed

theorem C10_restart_and_back_together_witness:
  "state demo_over = GAME_OVER \<and> IsKeyPressed demo_restart_back KEY_R \<and>
   IsKeyPressed demo_restart_back KEY_ESCAPE \<and> score demo_over = 251 / 2 \<and>
   (\<exists>g1. ResetGame demo_over ENEMY_COUNT = Inr g1 \<and>
      frame demo_restart_back demo_over = Inr (g1\<lparr>state := MENU\<rparr>) \<and>
      score g1 = 0 \<and> length (enemies g1) = 10 \<and>
      rect (player g1) = \<lparr>x = 382, y = 380, width = 36, height = 36\<rparr>)"
proof -
  have h: "state demo_over = GAME_OVER" "IsKeyPressed demo_restart_back KEY_R"
    "IsKeyPressed demo_restart_back KEY_ESCAPE" "score demo_over = 251 / 2"
    by (simp_all add: demo_over_def demo_playing_def demo_restart_back_def IsKeyPressed_def)
  from C10_restart_and_back_together [OF h(1-3)] h show ?thesis
    by auto
qed

end
